theory Spec2Isabelle
  imports Main "HOL-Library.Multiset"
begin

section \<open>Data model\<close>

text \<open>
  The documents of the store. Identifiers (\<open>_id\<close>, user references) are kept in their
  string form, the form in which the handlers compare them (\<open>post.user.toString()\<close>,
  \<open>comment.id\<close>, \<open>req.user.id\<close>). Timestamps are milliseconds.
\<close>

record like =
  like_user :: string

record comment =
  comment_id :: string
  comment_user :: string
  comment_name :: string
  comment_avatar :: string
  comment_text :: string
  comment_date :: int

record post =
  post_id :: string
  post_user :: string
  post_name :: string
  post_avatar :: string
  post_text :: string
  post_date :: int
  likes :: "like list"
  comments :: "comment list"

text \<open>A user document as \<open>User.findById(...).select('-password')\<close> returns it.\<close>

record account =
  account_id :: string
  account_name :: string
  account_avatar :: string

text \<open>
  The document store: the posts collection, the users collection, and whether the store
  answers at all (every query of an unreachable store throws).
\<close>

record store =
  posts :: "post list"
  users :: "account list"
  reachable :: bool

text \<open>\<open>req.user\<close> is the object \<open>{ id }\<close> carried by the token's payload.\<close>

record identity =
  ident :: string

record payload =
  decoded_user :: "identity option"

text \<open>
  What the handlers take from their libraries: \<open>jwt.verify(token, secret)\<close> (\<open>None\<close> when
  it throws), \<open>config.get('jwtToken')\<close> (\<open>None\<close> when it throws), and the cast of a string
  to a document identifier by the store's driver: \<open>cast_id\<close> gives the identifier in the
  driver's spelling, as its \<open>toString()\<close> returns it, and \<open>None\<close> when the string cannot be
  cast.
\<close>

record env =
  jwt_verify :: "string \<Rightarrow> string \<Rightarrow> payload option"
  jwtToken :: "string option"
  cast_id :: "string \<Rightarrow> string option"

text \<open>\<open>findById\<close> throws an error of kind \<open>ObjectId\<close> for a string that cannot be cast.\<close>

definition castable :: "env \<Rightarrow> string \<Rightarrow> bool" where
  "castable e i \<longleftrightarrow> cast_id e i \<noteq> None"

record request =
  header_token :: "string option"
  param_id :: string
  param_comment_id :: string
  body_text :: string
  req_user :: "identity option"

datatype body =
    Msg string
  | Errors "string list"
  | Text string
  | PostJ post
  | PostsJ "post list"
  | LikesJ "like list"
  | CommentsJ "comment list"

type_synonym response = "nat \<times> body"

datatype exn = CastError | TypeError | StoreError

section \<open>Token verifier (middleware/auth.js)\<close>

datatype gate = Reject response | Next request

definition auth :: "env \<Rightarrow> request \<Rightarrow> gate" where
  "auth e req =
     (case header_token req of
        None \<Rightarrow> Reject (401, Msg '' no token authrization denied'')
      | Some token \<Rightarrow>
          if token = [] then Reject (401, Msg '' no token authrization denied'')
          else (case jwtToken e of
                  None \<Rightarrow> Reject (401, Msg ''token is not found'')
                | Some secret \<Rightarrow>
                    (case jwt_verify e token secret of
                       None \<Rightarrow> Reject (401, Msg ''token is not found'')
                     | Some decoded \<Rightarrow> Next (req\<lparr>req_user := decoded_user decoded\<rparr>))))"

text \<open>The request is authenticated as \<open>u\<close>: the verifier lets it through with \<open>req.user = u\<close>.\<close>

definition authenticated :: "env \<Rightarrow> request \<Rightarrow> identity \<Rightarrow> bool" where
  "authenticated e req u \<longleftrightarrow> auth e req = Next (req\<lparr>req_user := Some u\<rparr>)"

text \<open>
  A credential is valid when the header carries a non-empty token that verifies against
  the configured secret; a request with a missing or invalid credential is one whose
  credential is not valid.
\<close>

definition valid_credential :: "env \<Rightarrow> request \<Rightarrow> bool" where
  "valid_credential e req \<longleftrightarrow>
     (case header_token req of
        None \<Rightarrow> False
      | Some token \<Rightarrow>
          token \<noteq> []
          \<and> (case jwtToken e of None \<Rightarrow> False | Some s \<Rightarrow> jwt_verify e token s \<noteq> None))"

section \<open>Array operations of the handlers\<close>

text \<open>\<open>Array.prototype.indexOf\<close>: the first position of \<open>x\<close>, or \<open>-1\<close>.\<close>

fun indexOf :: "'a list \<Rightarrow> 'a \<Rightarrow> int" where
  "indexOf [] x = - 1"
| "indexOf (y # ys) x =
     (if y = x then 0 else (let i = indexOf ys x in if i < 0 then - 1 else i + 1))"

text \<open>
  \<open>xs.splice(start, count)\<close>, the array that is left: a negative \<open>start\<close> counts from the
  end (and stops at 0), a \<open>start\<close> past the end is the end.
\<close>

definition splice :: "'a list \<Rightarrow> int \<Rightarrow> nat \<Rightarrow> 'a list" where
  "splice xs start deleteCount =
     (let n = int (length xs);
          k = nat (if start < 0 then max (n + start) 0 else min start n)
      in take k xs @ drop (k + deleteCount) xs)"

definition unshift :: "'a list \<Rightarrow> 'a \<Rightarrow> 'a list" where
  "unshift xs x = x # xs"

text \<open>
  The assignment expression \<open>(xs.length = n)\<close>: its value is \<open>n\<close>, and the array it
  truncates is the one it is applied to.
\<close>

definition assign_length :: "'a list \<Rightarrow> nat \<Rightarrow> nat \<times> 'a list" where
  "assign_length xs n = (n, take n xs)"

definition truthy :: "nat \<Rightarrow> bool" where
  "truthy n \<longleftrightarrow> n \<noteq> 0"

section \<open>Store operations\<close>

text \<open>
  The lookups by id. The string is cast first; the documents are then searched for the id
  as the string spells it, so a document is found under the spelling its id has in the
  store.
\<close>

definition findById :: "env \<Rightarrow> store \<Rightarrow> string \<Rightarrow> exn + post option" where
  "findById e db i =
     (if \<not> castable e i then Inl CastError
      else if \<not> reachable db then Inl StoreError
      else Inr (find (\<lambda>p. post_id p = i) (posts db)))"

definition findUserById :: "env \<Rightarrow> store \<Rightarrow> string \<Rightarrow> exn + account option" where
  "findUserById e db i =
     (if \<not> castable e i then Inl CastError
      else if \<not> reachable db then Inl StoreError
      else Inr (find (\<lambda>a. account_id a = i) (users db)))"

text \<open>\<open>Post.find().sort({ date: -1 })\<close>.\<close>

definition find_sorted :: "store \<Rightarrow> exn + post list" where
  "find_sorted db =
     (if \<not> reachable db then Inl StoreError
      else Inr (sort_key (\<lambda>p. - post_date p) (posts db)))"

text \<open>\<open>save()\<close> of a new document: the store refuses a second document with the same id.\<close>

definition insert_post :: "store \<Rightarrow> post \<Rightarrow> exn + store" where
  "insert_post db p =
     (if \<not> reachable db then Inl StoreError
      else if find (\<lambda>q. post_id q = post_id p) (posts db) \<noteq> None then Inl StoreError
      else Inr (db\<lparr>posts := posts db @ [p]\<rparr>))"

text \<open>\<open>save()\<close> of a fetched document: the whole aggregate replaces the stored one.\<close>

definition save_post :: "store \<Rightarrow> post \<Rightarrow> exn + store" where
  "save_post db p =
     (if \<not> reachable db then Inl StoreError
      else Inr (db\<lparr>posts := map (\<lambda>q. if post_id q = post_id p then p else q) (posts db)\<rparr>))"

definition remove_post :: "store \<Rightarrow> post \<Rightarrow> exn + store" where
  "remove_post db p =
     (if \<not> reachable db then Inl StoreError
      else Inr (db\<lparr>posts := filter (\<lambda>q. post_id q \<noteq> post_id p) (posts db)\<rparr>))"

section \<open>Handlers (routes/api/posts.js)\<close>

definition server_error :: response where
  "server_error = (500, Text ''Server Error'')"

text \<open>
  Each handler is one \<open>try\<close> block: whatever is thrown inside it (by the store, or by
  reading a property of \<open>null\<close> or \<open>undefined\<close>, such as \<open>req.user.id\<close> when the payload
  carried no user, or \<open>post.likes\<close> when no post was found) ends in the \<open>catch\<close> block, and
  nothing has been written by then, since \<open>save()\<close> and \<open>remove()\<close> are the last calls
  that can throw. A response without an explicit status is a 200.

  The \<open>catch\<close> block of get-post and delete-post looks at \<open>err.kind\<close>; the others answer
  500 whatever was thrown.
\<close>

definition catch_not_found :: "exn \<Rightarrow> response" where
  "catch_not_found err =
     (if err = CastError then (404, Msg ''post not found'') else server_error)"

text \<open>
  Modelled from the spec: the Post schema (models/Post) is not among the sources. A new
  post takes its id from the driver (\<open>oid\<close>), its creation timestamp from the clock
  (\<open>now\<close>), and starts with no likes and no comments.
\<close>

definition new_Post :: "string \<Rightarrow> int \<Rightarrow> string \<Rightarrow> string \<Rightarrow> string \<Rightarrow> string \<Rightarrow> post" where
  "new_Post oid now txt nm av usr =
     \<lparr>post_id = oid, post_user = usr, post_name = nm, post_avatar = av, post_text = txt,
      post_date = now, likes = [], comments = []\<rparr>"

definition create_post :: "env \<Rightarrow> string \<Rightarrow> int \<Rightarrow> store \<Rightarrow> request \<Rightarrow> response \<times> store" where
  "create_post e oid now db req =
     (if body_text req = [] then ((400, Errors [''Text is required'']), db)
      else (case req_user req of
              None \<Rightarrow> (server_error, db)
            | Some u \<Rightarrow>
                (case findUserById e db (ident u) of
                   Inl err \<Rightarrow> (server_error, db)
                 | Inr None \<Rightarrow> (server_error, db)
                 | Inr (Some user) \<Rightarrow>
                     (let newPost = new_Post oid now (body_text req) (account_name user)
                                      (account_avatar user) (ident u)
                      in (case insert_post db newPost of
                            Inl err \<Rightarrow> (server_error, db)
                          | Inr db' \<Rightarrow> ((200, PostJ newPost), db'))))))"

definition get_posts :: "store \<Rightarrow> request \<Rightarrow> response \<times> store" where
  "get_posts db req =
     (case find_sorted db of
        Inl err \<Rightarrow> (server_error, db)
      | Inr ps \<Rightarrow> ((200, PostsJ ps), db))"

definition get_post :: "env \<Rightarrow> store \<Rightarrow> request \<Rightarrow> response \<times> store" where
  "get_post e db req =
     (case findById e db (param_id req) of
        Inl err \<Rightarrow> (catch_not_found err, db)
      | Inr None \<Rightarrow> ((404, Msg ''post not found''), db)
      | Inr (Some p) \<Rightarrow> ((200, PostJ p), db))"

definition delete_post :: "env \<Rightarrow> store \<Rightarrow> request \<Rightarrow> response \<times> store" where
  "delete_post e db req =
     (case findById e db (param_id req) of
        Inl err \<Rightarrow> (catch_not_found err, db)
      | Inr None \<Rightarrow> ((404, Msg ''post not found''), db)
      | Inr (Some p) \<Rightarrow>
          (case req_user req of
             None \<Rightarrow> (catch_not_found TypeError, db)
           | Some u \<Rightarrow>
               if post_user p \<noteq> ident u then ((401, Msg ''User not autherized''), db)
               else (case remove_post db p of
                       Inl err \<Rightarrow> (catch_not_found err, db)
                     | Inr db' \<Rightarrow> ((200, Msg ''post removed''), db'))))"

text \<open>
  The \<open>user\<close> of a like is a document identifier (the handlers read it back with
  \<open>like.user.toString()\<close>): what \<open>unshift({ user: req.user.id })\<close> puts into the array is
  the cast of \<open>req.user.id\<close>, in the driver's spelling, and \<open>save()\<close> throws when the id
  cannot be cast. The test before it compares the stored spelling with \<open>req.user.id\<close> as
  it came in the token.
\<close>

definition like_post :: "env \<Rightarrow> store \<Rightarrow> request \<Rightarrow> response \<times> store" where
  "like_post e db req =
     (case findById e db (param_id req) of
        Inl err \<Rightarrow> (server_error, db)
      | Inr None \<Rightarrow> (server_error, db)
      | Inr (Some p) \<Rightarrow>
          (case req_user req of
             None \<Rightarrow> (server_error, db)
           | Some u \<Rightarrow>
               if length (filter (\<lambda>l. like_user l = ident u) (likes p)) > 0
               then ((400, Msg ''post already liked''), db)
               else (case cast_id e (ident u) of
                       None \<Rightarrow> (server_error, db)
                     | Some uid \<Rightarrow>
                         (let p' = p\<lparr>likes := unshift (likes p) \<lparr>like_user = uid\<rparr>\<rparr>
                          in (case save_post db p' of
                                Inl err \<Rightarrow> (server_error, db)
                              | Inr db' \<Rightarrow> ((200, LikesJ (likes p')), db'))))))"

definition unlike_post :: "env \<Rightarrow> store \<Rightarrow> request \<Rightarrow> response \<times> store" where
  "unlike_post e db req =
     (case findById e db (param_id req) of
        Inl err \<Rightarrow> (server_error, db)
      | Inr None \<Rightarrow> (server_error, db)
      | Inr (Some p) \<Rightarrow>
          (case req_user req of
             None \<Rightarrow> (server_error, db)
           | Some u \<Rightarrow>
               if truthy (fst (assign_length
                                 (filter (\<lambda>l. like_user l = ident u) (likes p)) 0))
               then ((400, Msg ''post has not yet been liked''), db)
               else (let removeIndex = indexOf (map like_user (likes p)) (ident u);
                         p' = p\<lparr>likes := splice (likes p) removeIndex 1\<rparr>
                     in (case save_post db p' of
                           Inl err \<Rightarrow> (server_error, db)
                         | Inr db' \<Rightarrow> ((200, LikesJ (likes p')), db')))))"

text \<open>
  Modelled from the spec: the comment sub-schema (models/Post) is not among the sources.
  A new comment takes its id from the driver and its creation timestamp from the clock.
\<close>

definition new_comment :: "string \<Rightarrow> int \<Rightarrow> string \<Rightarrow> string \<Rightarrow> string \<Rightarrow> string \<Rightarrow> comment" where
  "new_comment oid now txt nm av usr =
     \<lparr>comment_id = oid, comment_user = usr, comment_name = nm, comment_avatar = av,
      comment_text = txt, comment_date = now\<rparr>"

definition add_comment :: "env \<Rightarrow> string \<Rightarrow> int \<Rightarrow> store \<Rightarrow> request \<Rightarrow> response \<times> store" where
  "add_comment e oid now db req =
     (if body_text req = [] then ((400, Errors [''Text is required'']), db)
      else (case req_user req of
              None \<Rightarrow> (server_error, db)
            | Some u \<Rightarrow>
                (case findUserById e db (ident u) of
                   Inl err \<Rightarrow> (server_error, db)
                 | Inr user_opt \<Rightarrow>
                     (case findById e db (param_id req) of
                        Inl err \<Rightarrow> (server_error, db)
                      | Inr post_opt \<Rightarrow>
                          (case user_opt of
                             None \<Rightarrow> (server_error, db)
                           | Some user \<Rightarrow>
                               (let newComment = new_comment oid now (body_text req)
                                      (account_name user) (account_avatar user) (ident u)
                                in (case post_opt of
                                      None \<Rightarrow> (server_error, db)
                                    | Some p \<Rightarrow>
                                        (let p' = p\<lparr>comments := unshift (comments p) newComment\<rparr>
                                         in (case save_post db p' of
                                               Inl err \<Rightarrow> (server_error, db)
                                             | Inr db' \<Rightarrow>
                                                 ((200, CommentsJ (comments p')), db'))))))))))"

definition delete_comment :: "env \<Rightarrow> store \<Rightarrow> request \<Rightarrow> response \<times> store" where
  "delete_comment e db req =
     (case findById e db (param_id req) of
        Inl err \<Rightarrow> (server_error, db)
      | Inr None \<Rightarrow> (server_error, db)
      | Inr (Some p) \<Rightarrow>
          (case find (\<lambda>c. comment_id c = param_comment_id req) (comments p) of
             None \<Rightarrow> ((404, Msg ''Comment does not exist''), db)
           | Some c \<Rightarrow>
               (case req_user req of
                  None \<Rightarrow> (server_error, db)
                | Some u \<Rightarrow>
                    if comment_user c \<noteq> ident u then ((401, Msg ''User not authorized''), db)
                    else (let removeIndex = indexOf (map comment_user (comments p)) (ident u)
                          in ((200, CommentsJ (splice (comments p) removeIndex 1)), db)))))"

section \<open>Router\<close>

text \<open>
  The eight routes. \<open>CreatePost\<close> and \<open>AddComment\<close> carry what the driver and the clock
  supply for the new document.
\<close>

datatype route =
    CreatePost string int
  | ListPosts
  | GetPost
  | DeletePost
  | LikePost
  | UnlikePost
  | AddComment string int
  | DeleteComment

fun handler :: "env \<Rightarrow> route \<Rightarrow> store \<Rightarrow> request \<Rightarrow> response \<times> store" where
  "handler e (CreatePost oid now) = create_post e oid now"
| "handler e ListPosts = get_posts"
| "handler e GetPost = get_post e"
| "handler e DeletePost = delete_post e"
| "handler e LikePost = like_post e"
| "handler e UnlikePost = unlike_post e"
| "handler e (AddComment oid now) = add_comment e oid now"
| "handler e DeleteComment = delete_comment e"

text \<open>Every route is registered behind \<open>auth\<close>: the handler runs only after \<open>next()\<close>.\<close>

definition serve :: "env \<Rightarrow> route \<Rightarrow> store \<Rightarrow> request \<Rightarrow> response \<times> store" where
  "serve e r db req =
     (case auth e req of
        Reject resp \<Rightarrow> (resp, db)
      | Next req' \<Rightarrow> handler e r db req')"

section \<open>Invariants of the store\<close>

text \<open>No post has two likes of the same user.\<close>

definition likes_unique :: "store \<Rightarrow> bool" where
  "likes_unique db \<longleftrightarrow> (\<forall>p \<in> set (posts db). distinct (map like_user (likes p)))"

text \<open>A sequence is newest-first when no entry is older than an entry after it.\<close>

definition newest_first :: "('a \<Rightarrow> int) \<Rightarrow> 'a list \<Rightarrow> bool" where
  "newest_first date xs \<longleftrightarrow> sorted_wrt (\<lambda>a b. date b \<le> date a) xs"

section \<open>A concrete deployment\<close>

text \<open>
  The driver of the example casts the strings of two characters and spells identifiers
  in lower case. Ann and Bob hold tokens with their user ids; two more tokens carry
  Bob's id in another spelling and an id that cannot be cast.
\<close>

definition demo_cast :: "string \<Rightarrow> string option" where
  "demo_cast s =
     (if length s = 2 then Some (map (\<lambda>c. if c = CHR ''U'' then CHR ''u'' else c) s)
      else None)"

definition demo_env :: env where
  "demo_env =
     \<lparr>jwt_verify = (\<lambda>token secret.
         if secret = ''s3cret'' \<and> token = ''tok-ann'' then Some \<lparr>decoded_user = Some \<lparr>ident = ''u1''\<rparr>\<rparr>
         else if secret = ''s3cret'' \<and> token = ''tok-bob'' then Some \<lparr>decoded_user = Some \<lparr>ident = ''u2''\<rparr>\<rparr>
         else if secret = ''s3cret'' \<and> token = ''tok-BOB'' then Some \<lparr>decoded_user = Some \<lparr>ident = ''U2''\<rparr>\<rparr>
         else if secret = ''s3cret'' \<and> token = ''tok-eve'' then Some \<lparr>decoded_user = Some \<lparr>ident = ''nobody''\<rparr>\<rparr>
         else None),
      jwtToken = Some ''s3cret'',
      cast_id = demo_cast\<rparr>"

definition demo_request :: "string \<Rightarrow> string \<Rightarrow> string \<Rightarrow> string \<Rightarrow> request" where
  "demo_request token i ci txt =
     \<lparr>header_token = Some token, param_id = i, param_comment_id = ci, body_text = txt,
      req_user = None\<rparr>"

definition ann :: identity where
  "ann = \<lparr>ident = ''u1''\<rparr>"

definition bob :: identity where
  "bob = \<lparr>ident = ''u2''\<rparr>"

definition demo_comment :: "string \<Rightarrow> string \<Rightarrow> int \<Rightarrow> comment" where
  "demo_comment ci usr t =
     \<lparr>comment_id = ci, comment_user = usr, comment_name = ''n'', comment_avatar = ''a'',
      comment_text = ''hi'', comment_date = t\<rparr>"

definition demo_post :: post where
  "demo_post =
     \<lparr>post_id = ''p1'', post_user = ''u1'', post_name = ''Ann'', post_avatar = ''a.png'',
      post_text = ''hello'', post_date = 10,
      likes = [\<lparr>like_user = ''u1''\<rparr>],
      comments = [demo_comment ''c1'' ''u2'' 30, demo_comment ''c2'' ''u2'' 20]\<rparr>"

definition demo_post2 :: post where
  "demo_post2 =
     \<lparr>post_id = ''p2'', post_user = ''u2'', post_name = ''Bob'', post_avatar = ''b.png'',
      post_text = ''second'', post_date = 20, likes = [], comments = []\<rparr>"

definition demo_store :: store where
  "demo_store =
     \<lparr>posts = [demo_post, demo_post2],
      users = [\<lparr>account_id = ''u1'', account_name = ''Ann'', account_avatar = ''a.png''\<rparr>,
               \<lparr>account_id = ''u2'', account_name = ''Bob'', account_avatar = ''b.png''\<rparr>],
      reachable = True\<rparr>"

section \<open>Facts about the verifier and the router\<close>

lemma auth_Reject: "auth e req = Reject resp \<Longrightarrow> fst resp = 401"
  by (auto simp: auth_def split: option.splits if_splits)

lemma auth_Next: "auth e req = Next req' \<Longrightarrow> \<exists>u. req' = req\<lparr>req_user := u\<rparr>"
  by (auto simp: auth_def split: option.splits if_splits)

lemma serve_authenticated:
  "authenticated e req u \<Longrightarrow> serve e r db req = handler e r db (req\<lparr>req_user := Some u\<rparr>)"
  by (simp add: serve_def authenticated_def)

lemma auth_demo_ann:
  "auth demo_env (demo_request ''tok-ann'' i ci txt) =
     Next ((demo_request ''tok-ann'' i ci txt)\<lparr>req_user := Some ann\<rparr>)"
  by (simp add: auth_def demo_env_def demo_cast_def castable_def demo_request_def ann_def)

lemma auth_demo_bob:
  "auth demo_env (demo_request ''tok-bob'' i ci txt) =
     Next ((demo_request ''tok-bob'' i ci txt)\<lparr>req_user := Some bob\<rparr>)"
  by (simp add: auth_def demo_env_def demo_cast_def castable_def demo_request_def bob_def)

lemma serve_demo_ann:
  "serve demo_env r db (demo_request ''tok-ann'' i ci txt) =
     handler demo_env r db ((demo_request ''tok-ann'' i ci txt)\<lparr>req_user := Some ann\<rparr>)"
  by (simp add: serve_def auth_demo_ann)

lemma serve_demo_bob:
  "serve demo_env r db (demo_request ''tok-bob'' i ci txt) =
     handler demo_env r db ((demo_request ''tok-bob'' i ci txt)\<lparr>req_user := Some bob\<rparr>)"
  by (simp add: serve_def auth_demo_bob)

lemma findById_demo_post: "findById demo_env demo_store ''p1'' = Inr (Some demo_post)"
  by (simp add: findById_def demo_env_def demo_cast_def castable_def demo_store_def demo_post_def)

section \<open>Token verifier\<close>

text \<open>
  C1. A request without the token header is rejected with 401 and the "no token" message;
  a request whose token does not verify against the configured secret is rejected with
  401 (with the "invalid token" message whenever the header is not the empty string);
  a request whose token verifies goes on to the handler with \<open>req.user\<close> set to the
  identity of the token's payload, and is otherwise the request that came in.
\<close>

theorem auth_verifier:
  "(header_token req = None \<longrightarrow>
      auth e req = Reject (401, Msg '' no token authrization denied''))
   \<and> (header_token req = Some token \<and> token \<noteq> []
        \<and> (jwtToken e = None \<or> (\<exists>s. jwtToken e = Some s \<and> jwt_verify e token s = None)) \<longrightarrow>
      auth e req = Reject (401, Msg ''token is not found''))
   \<and> (header_token req = Some token
        \<and> (jwtToken e = None \<or> (\<exists>s. jwtToken e = Some s \<and> jwt_verify e token s = None)) \<longrightarrow>
      (\<exists>m. auth e req = Reject (401, Msg m)))
   \<and> (header_token req = Some token \<and> token \<noteq> []
        \<and> jwtToken e = Some secret \<and> jwt_verify e token secret = Some d \<longrightarrow>
      auth e req = Next (req\<lparr>req_user := decoded_user d\<rparr>))"
  by (auto simp: auth_def)

theorem auth_verifier_witness:
  "auth demo_env (demo_request ''tok-ann'' ''p1'' '''' '''')
     = Next ((demo_request ''tok-ann'' ''p1'' '''' '''')\<lparr>req_user := Some ann\<rparr>)
   \<and> auth demo_env (demo_request ''forged'' ''p1'' '''' '''')
     = Reject (401, Msg ''token is not found'')
   \<and> auth demo_env ((demo_request ''x'' ''p1'' '''' '''')\<lparr>header_token := None\<rparr>)
     = Reject (401, Msg '' no token authrization denied'')"
proof -
  let ?ok = "demo_request ''tok-ann'' ''p1'' '''' ''''"
  let ?bad = "demo_request ''forged'' ''p1'' '''' ''''"
  let ?none = "(demo_request ''x'' ''p1'' '''' '''')\<lparr>header_token := None\<rparr>"
  have a: "header_token ?ok = Some ''tok-ann'' \<and> ''tok-ann'' \<noteq> []
           \<and> jwtToken demo_env = Some ''s3cret''
           \<and> jwt_verify demo_env ''tok-ann'' ''s3cret'' = Some \<lparr>decoded_user = Some ann\<rparr>"
    by (simp add: demo_env_def demo_cast_def castable_def demo_request_def ann_def)
  have b: "header_token ?bad = Some ''forged'' \<and> ''forged'' \<noteq> []
           \<and> (jwtToken demo_env = None
               \<or> (\<exists>s. jwtToken demo_env = Some s \<and> jwt_verify demo_env ''forged'' s = None))"
    by (simp add: demo_env_def demo_cast_def castable_def demo_request_def)
  have c: "header_token ?none = None"
    by (simp add: demo_request_def)
  from a auth_verifier [of ?ok demo_env "''tok-ann''" "''s3cret''" "\<lparr>decoded_user = Some ann\<rparr>"]
  have 1: "auth demo_env ?ok = Next (?ok\<lparr>req_user := Some ann\<rparr>)" by simp
  from b auth_verifier [of ?bad demo_env "''forged''"]
  have 2: "auth demo_env ?bad = Reject (401, Msg ''token is not found'')" by blast
  from c auth_verifier [of ?none demo_env]
  have 3: "auth demo_env ?none = Reject (401, Msg '' no token authrization denied'')" by blast
  from 1 2 3 show ?thesis by blast
qed

section \<open>Rejection before storage\<close>

lemma valid_credential_iff: "valid_credential e req \<longleftrightarrow> (\<exists>req'. auth e req = Next req')"
  by (auto simp: valid_credential_def auth_def split: option.splits)

text \<open>
  C6. A request with a missing or invalid credential gets, on every route, a 401 whose
  body does not depend on the store (not even on whether the store can be reached), and
  the store is left as it was: the handler, the only code that queries the store, is
  never run.
\<close>

theorem unauthenticated_no_storage:
  "\<not> valid_credential e req \<Longrightarrow> \<exists>m. \<forall>r db. serve e r db req = ((401, Msg m), db)"
  by (auto simp: valid_credential_def serve_def auth_def split: option.splits)

theorem unauthenticated_no_storage_witness:
  "\<not> valid_credential demo_env (demo_request ''forged'' ''p1'' ''c1'' ''hi'')
   \<and> (\<exists>m. \<forall>r db. serve demo_env r db (demo_request ''forged'' ''p1'' ''c1'' ''hi'')
              = ((401, Msg m), db))"
proof -
  have h: "\<not> valid_credential demo_env (demo_request ''forged'' ''p1'' ''c1'' ''hi'')"
    by (simp add: valid_credential_def demo_env_def demo_cast_def castable_def demo_request_def)
  from h unauthenticated_no_storage [OF h] show ?thesis by blast
qed

section \<open>Ownership\<close>

lemma find_distinct_key:
  "c \<in> set xs \<Longrightarrow> distinct (map f xs) \<Longrightarrow> find (\<lambda>x. f x = f c) xs = Some c"
  by (induction xs) (auto simp: image_iff)

text \<open>
  C2. Let the request be authenticated as \<open>u\<close> and let the store return the post \<open>p\<close> for
  the request's post id. If \<open>u\<close> is not \<open>p\<close>'s author, delete-post answers 401 and the store
  is unchanged. If the comment id of the request is that of a comment \<open>c\<close> of \<open>p\<close> (comment
  ids being distinct within the post) and \<open>u\<close> is not \<open>c\<close>'s author, delete-comment answers
  401 and the store is unchanged. The comparison is equality of the id strings.
\<close>

theorem non_author_delete:
  assumes "authenticated e req u" and "findById e db (param_id req) = Inr (Some p)"
  shows "(ident u \<noteq> post_user p \<longrightarrow>
            serve e DeletePost db req = ((401, Msg ''User not autherized''), db))
       \<and> (\<forall>c \<in> set (comments p).
            distinct (map comment_id (comments p)) \<and> param_comment_id req = comment_id c
              \<and> comment_user c \<noteq> ident u \<longrightarrow>
            serve e DeleteComment db req = ((401, Msg ''User not authorized''), db))"
proof -
  have del: "ident u \<noteq> post_user p \<Longrightarrow>
      serve e DeletePost db req = ((401, Msg ''User not autherized''), db)"
    using assms by (simp add: serve_authenticated delete_post_def)
  have com: "serve e DeleteComment db req = ((401, Msg ''User not authorized''), db)"
    if "c \<in> set (comments p)" "distinct (map comment_id (comments p))"
       "param_comment_id req = comment_id c" "comment_user c \<noteq> ident u" for c
  proof -
    have "find (\<lambda>x. comment_id x = param_comment_id req) (comments p) = Some c"
      using that find_distinct_key [of c "comments p" comment_id] by simp
    then show ?thesis
      using assms that by (simp add: serve_authenticated delete_comment_def)
  qed
  from del com show ?thesis by blast
qed

theorem non_author_delete_witness:
  "serve demo_env DeletePost demo_store (demo_request ''tok-bob'' ''p1'' [] [])
     = ((401, Msg ''User not autherized''), demo_store)
   \<and> serve demo_env DeleteComment demo_store (demo_request ''tok-ann'' ''p1'' ''c1'' [])
     = ((401, Msg ''User not authorized''), demo_store)"
proof -
  let ?rb = "demo_request ''tok-bob'' ''p1'' [] []"
  let ?ra = "demo_request ''tok-ann'' ''p1'' ''c1'' []"
  let ?c = "demo_comment ''c1'' ''u2'' 30"
  have ab: "authenticated demo_env ?rb bob"
    by (simp add: authenticated_def auth_demo_bob)
  have aa: "authenticated demo_env ?ra ann"
    by (simp add: authenticated_def auth_demo_ann)
  have fb: "findById demo_env demo_store (param_id ?rb) = Inr (Some demo_post)"
    by (simp add: demo_request_def findById_demo_post)
  have fa: "findById demo_env demo_store (param_id ?ra) = Inr (Some demo_post)"
    by (simp add: demo_request_def findById_demo_post)
  have nb: "ident bob \<noteq> post_user demo_post"
    by (simp add: bob_def demo_post_def)
  have c: "?c \<in> set (comments demo_post)"
          "distinct (map comment_id (comments demo_post))"
          "param_comment_id ?ra = comment_id ?c"
          "comment_user ?c \<noteq> ident ann"
    by (simp_all add: demo_post_def demo_comment_def demo_request_def ann_def)
  from non_author_delete [OF ab fb] nb
  have 1: "serve demo_env DeletePost demo_store ?rb
             = ((401, Msg ''User not autherized''), demo_store)"
    by blast
  from non_author_delete [OF aa fa] c
  have 2: "serve demo_env DeleteComment demo_store ?ra
             = ((401, Msg ''User not authorized''), demo_store)"
    by blast
  from 1 2 show ?thesis by blast
qed

section \<open>Delete-comment\<close>

lemma delete_comment_store: "snd (delete_comment e db req) = db"
  by (simp add: delete_comment_def split: sum.splits option.splits)

lemma delete_comment_200:
  assumes "delete_comment e db req = ((200, b), db')"
  shows "\<exists>p c. findById e db (param_id req) = Inr (Some p)
           \<and> find (\<lambda>c. comment_id c = param_comment_id req) (comments p) = Some c"
  using assms
  by (auto simp: delete_comment_def server_error_def
           split: sum.splits option.splits if_splits)

text \<open>
  C10. When delete-comment answers 200, the store is exactly what it was before the
  request: fetching the post afterwards returns it with a comment of the requested id
  still among its comments.
\<close>

theorem delete_comment_not_persisted:
  assumes "serve e DeleteComment db req = ((200, b), db')"
  shows "db' = db
       \<and> (\<exists>p c. serve e GetPost db' req = ((200, PostJ p), db')
                \<and> c \<in> set (comments p) \<and> comment_id c = param_comment_id req)"
proof (cases "auth e req")
  case (Reject resp)
  with assms auth_Reject [of e req resp] show ?thesis
    by (simp add: serve_def)
next
  case (Next req')
  then obtain u where req': "req' = req\<lparr>req_user := u\<rparr>"
    using auth_Next by blast
  from assms Next have run: "delete_comment e db req' = ((200, b), db')"
    by (simp add: serve_def)
  have same: "db' = db"
    using run delete_comment_store [of e db req'] by simp
  from delete_comment_200 [OF run] obtain p c where
    p: "findById e db (param_id req') = Inr (Some p)" and
    c: "find (\<lambda>c. comment_id c = param_comment_id req') (comments p) = Some c"
    by blast
  from c have "c \<in> set (comments p)" "comment_id c = param_comment_id req"
    by (auto simp: find_Some_iff req')
  moreover have "serve e GetPost db' req = ((200, PostJ p), db')"
    using Next p same by (simp add: serve_def get_post_def)
  ultimately show ?thesis using same by blast
qed

lemma delete_comment_demo:
  "serve demo_env DeleteComment demo_store (demo_request ''tok-bob'' ''p1'' ''c1'' [])
     = ((200, CommentsJ [demo_comment ''c2'' ''u2'' 20]), demo_store)"
  unfolding serve_demo_bob handler.simps
  by (simp add: delete_comment_def findById_def
        demo_env_def demo_cast_def castable_def demo_store_def demo_post_def demo_request_def bob_def
        demo_comment_def splice_def)

theorem delete_comment_not_persisted_witness:
  "serve demo_env DeleteComment demo_store (demo_request ''tok-bob'' ''p1'' ''c1'' [])
     = ((200, CommentsJ [demo_comment ''c2'' ''u2'' 20]), demo_store)
   \<and> (\<exists>p c. serve demo_env GetPost demo_store (demo_request ''tok-bob'' ''p1'' ''c1'' [])
                = ((200, PostJ p), demo_store)
              \<and> c \<in> set (comments p)
              \<and> comment_id c = param_comment_id (demo_request ''tok-bob'' ''p1'' ''c1'' []))"
  using delete_comment_demo delete_comment_not_persisted [OF delete_comment_demo]
  by blast

section \<open>Likes\<close>

lemma findById_Some:
  "findById e db i = Inr (Some p) \<Longrightarrow>
     castable e i \<and> reachable db \<and> p \<in> set (posts db) \<and> post_id p = i"
  by (auto simp: findById_def find_Some_iff split: if_splits)

lemma find_replace:
  "find (\<lambda>q. post_id q = i) ps = Some p \<Longrightarrow> post_id p' = i \<Longrightarrow>
   find (\<lambda>q. post_id q = i) (map (\<lambda>q. if post_id q = post_id p' then p' else q) ps) = Some p'"
  by (induction ps) (auto split: if_splits)

lemma findById_save:
  assumes "findById e db i = Inr (Some p)" and "post_id p' = post_id p"
  shows "\<exists>db'. save_post db p' = Inr db' \<and> findById e db' i = Inr (Some p')"
proof -
  from findById_Some [OF assms(1)] have c: "castable e i" "reachable db" "post_id p = i"
    by simp_all
  from assms(1) have f: "find (\<lambda>q. post_id q = i) (posts db) = Some p"
    by (simp add: findById_def split: if_splits)
  from find_replace [OF f, of p'] assms(2) c show ?thesis
    by (simp add: save_post_def findById_def)
qed

lemma likes_unique_save:
  "likes_unique db \<Longrightarrow> distinct (map like_user (likes p')) \<Longrightarrow> save_post db p' = Inr db' \<Longrightarrow>
   likes_unique db'"
  by (auto simp: likes_unique_def save_post_def split: if_splits)

lemma distinct_splice:
  assumes "distinct (map f xs)"
  shows "distinct (map f (splice xs i n))"
proof -
  have "distinct (take k (map f xs) @ drop (k + n) (map f xs))" for k
    using assms set_take_disj_set_drop_if_distinct [of "map f xs" k "k + n"]
    by simp
  then show ?thesis
    by (simp add: splice_def Let_def take_map drop_map)
qed

lemma count_distinct:
  "distinct (map f xs) \<Longrightarrow> x \<in> f ` set xs \<Longrightarrow> length (filter (\<lambda>l. f l = x) xs) = 1"
proof (induction xs)
  case Nil
  then show ?case by simp
next
  case (Cons a xs)
  show ?case
  proof (cases "f a = x")
    case True
    from Cons.prems(1) have "f a \<notin> f ` set xs"
      by simp
    with True have "\<forall>l \<in> set xs. f l \<noteq> x"
      by blast
    then have "filter (\<lambda>l. f l = x) xs = []"
      by (simp add: filter_empty_conv)
    with True show ?thesis by simp
  next
    case False
    with Cons show ?thesis by auto
  qed
qed

lemma likes_unique_create: "likes_unique db \<Longrightarrow> likes_unique (snd (create_post e oid now db req))"
  by (auto simp: create_post_def insert_post_def new_Post_def likes_unique_def Let_def
           split: option.splits sum.splits if_splits)

lemma likes_unique_get_posts: "likes_unique db \<Longrightarrow> likes_unique (snd (get_posts db req))"
  by (simp add: get_posts_def split: sum.splits)

lemma likes_unique_get_post: "likes_unique db \<Longrightarrow> likes_unique (snd (get_post e db req))"
  by (simp add: get_post_def split: sum.splits option.splits)

lemma likes_unique_delete: "likes_unique db \<Longrightarrow> likes_unique (snd (delete_post e db req))"
  by (auto simp: delete_post_def remove_post_def likes_unique_def
           split: option.splits sum.splits if_splits)

lemma likes_unique_like:
  assumes "likes_unique db"
    and "\<And>u c. req_user req = Some u \<Longrightarrow> cast_id e (ident u) = Some c \<Longrightarrow> c = ident u"
  shows "likes_unique (snd (like_post e db req))"
proof (cases "findById e db (param_id req)")
  case (Inl err)
  with assms(1) show ?thesis by (simp add: like_post_def)
next
  case (Inr po)
  show ?thesis
  proof (cases po)
    case None
    with Inr assms(1) show ?thesis by (simp add: like_post_def)
  next
    case (Some p)
    with Inr findById_Some [of e db "param_id req" p] assms(1)
    have d: "distinct (map like_user (likes p))"
      by (simp add: likes_unique_def)
    show ?thesis
    proof (cases "req_user req")
      case None
      with Inr Some assms(1) show ?thesis by (simp add: like_post_def)
    next
      case u: (Some u)
      show ?thesis
      proof (cases "\<exists>l \<in> set (likes p). like_user l = ident u")
        case True
        with Inr Some u assms(1) show ?thesis
          by (simp add: like_post_def filter_empty_conv)
      next
        case False
        show ?thesis
        proof (cases "cast_id e (ident u)")
          case None
          with False Inr Some u assms(1) show ?thesis
            by (simp add: like_post_def filter_empty_conv)
        next
          case c: (Some c)
          from assms(2) [OF u c] have eq: "c = ident u" .
          from False have d': "distinct (map like_user (likes (p\<lparr>likes := \<lparr>like_user = ident u\<rparr> # likes p\<rparr>)))"
            using d by auto
          from False Inr Some u c eq assms(1) likes_unique_save [OF assms(1) d'] show ?thesis
            by (auto simp: like_post_def filter_empty_conv unshift_def Let_def split: sum.splits)
        qed
      qed
    qed
  qed
qed

lemma likes_unique_unlike:
  assumes "likes_unique db"
  shows "likes_unique (snd (unlike_post e db req))"
proof (cases "findById e db (param_id req)")
  case (Inl err)
  with assms show ?thesis by (simp add: unlike_post_def)
next
  case (Inr po)
  show ?thesis
  proof (cases po)
    case None
    with Inr assms show ?thesis by (simp add: unlike_post_def)
  next
    case (Some p)
    with Inr findById_Some [of e db "param_id req" p] assms
    have d: "distinct (map like_user (likes p))"
      by (simp add: likes_unique_def)
    show ?thesis
    proof (cases "req_user req")
      case None
      with Inr Some assms show ?thesis by (simp add: unlike_post_def)
    next
      case u: (Some u)
      let ?p' = "p\<lparr>likes := splice (likes p) (indexOf (map like_user (likes p)) (ident u)) 1\<rparr>"
      have d': "distinct (map like_user (likes ?p'))"
        using distinct_splice [OF d] by simp
      from Inr Some u assms likes_unique_save [OF assms d'] show ?thesis
        by (auto simp: unlike_post_def truthy_def assign_length_def Let_def split: sum.splits)
    qed
  qed
qed

lemma add_comment_store:
  "snd (add_comment e oid now db req) = db
   \<or> (\<exists>p c. findById e db (param_id req) = Inr (Some p)
          \<and> save_post db (p\<lparr>comments := c # comments p\<rparr>) = Inr (snd (add_comment e oid now db req)))"
  by (auto simp: add_comment_def Let_def unshift_def split: option.splits sum.splits)

lemma likes_unique_add_comment:
  assumes "likes_unique db"
  shows "likes_unique (snd (add_comment e oid now db req))"
  using add_comment_store [of e oid now db req]
proof
  assume "snd (add_comment e oid now db req) = db"
  with assms show ?thesis by simp
next
  assume "\<exists>p c. findById e db (param_id req) = Inr (Some p)
          \<and> save_post db (p\<lparr>comments := c # comments p\<rparr>) = Inr (snd (add_comment e oid now db req))"
  then obtain p c where p: "findById e db (param_id req) = Inr (Some p)"
    and s: "save_post db (p\<lparr>comments := c # comments p\<rparr>) = Inr (snd (add_comment e oid now db req))"
    by blast
  from p findById_Some [of e db "param_id req" p] assms
  have "distinct (map like_user (likes (p\<lparr>comments := c # comments p\<rparr>)))"
    by (simp add: likes_unique_def)
  from likes_unique_save [OF assms this s] show ?thesis .
qed

lemma likes_unique_delete_comment:
  "likes_unique db \<Longrightarrow> likes_unique (snd (delete_comment e db req))"
  by (simp add: delete_comment_store)

lemma likes_unique_handler:
  assumes "likes_unique db"
    and "\<And>u c. req_user req = Some u \<Longrightarrow> cast_id e (ident u) = Some c \<Longrightarrow> c = ident u"
  shows "likes_unique (snd (handler e r db req))"
  using assms(1) likes_unique_like [OF assms]
  by (cases r)
     (simp_all add: likes_unique_create likes_unique_get_posts likes_unique_get_post
        likes_unique_delete likes_unique_unlike likes_unique_add_comment
        likes_unique_delete_comment)

lemma likes_unique_serve:
  assumes "likes_unique db"
    and "\<And>u c. authenticated e req u \<Longrightarrow> cast_id e (ident u) = Some c \<Longrightarrow> c = ident u"
  shows "likes_unique (snd (serve e r db req))"
proof (cases "auth e req")
  case (Reject resp)
  with assms(1) show ?thesis by (simp add: serve_def)
next
  case (Next req')
  then obtain x where x: "req' = req\<lparr>req_user := x\<rparr>"
    using auth_Next by blast
  have spelled: "c = ident u" if "req_user req' = Some u" "cast_id e (ident u) = Some c" for u c
  proof -
    from that(1) x have "x = Some u" by simp
    with Next x have "authenticated e req u" by (simp add: authenticated_def)
    from assms(2) [OF this that(2)] show ?thesis .
  qed
  from likes_unique_handler [OF assms(1) spelled] Next show ?thesis
    by (simp add: serve_def)
qed

lemma auth_param_id:
  "auth e (req\<lparr>param_id := i\<rparr>) =
     (case auth e req of Reject resp \<Rightarrow> Reject resp | Next req' \<Rightarrow> Next (req'\<lparr>param_id := i\<rparr>))"
  by (simp add: auth_def split: option.splits)

lemma authenticated_param_id:
  "authenticated e req u \<Longrightarrow> authenticated e (req\<lparr>param_id := i\<rparr>) u"
  by (simp add: authenticated_def auth_param_id)

lemma filter_not_in_image: "x \<notin> f ` set xs \<Longrightarrow> filter (\<lambda>l. f l = x) xs = []"
  by (induction xs) auto

lemma like_post_already:
  assumes "findById e db (param_id req) = Inr (Some p)" and "req_user req = Some u"
    and "ident u \<in> like_user ` set (likes p)"
  shows "like_post e db req = ((400, Msg ''post already liked''), db)"
proof -
  from assms(3) have "filter (\<lambda>l. like_user l = ident u) (likes p) \<noteq> []"
    by (auto simp: filter_empty_conv)
  with assms(1,2) show ?thesis by (simp add: like_post_def)
qed

lemma like_post_fresh:
  assumes "findById e db (param_id req) = Inr (Some p)" and "req_user req = Some u"
    and "ident u \<notin> like_user ` set (likes p)" and "cast_id e (ident u) = Some uid"
  shows "\<exists>db'. like_post e db req = ((200, LikesJ (\<lparr>like_user = uid\<rparr> # likes p)), db')
           \<and> save_post db (p\<lparr>likes := \<lparr>like_user = uid\<rparr> # likes p\<rparr>) = Inr db'
           \<and> findById e db' (param_id req)
               = Inr (Some (p\<lparr>likes := \<lparr>like_user = uid\<rparr> # likes p\<rparr>))"
proof -
  let ?p' = "p\<lparr>likes := \<lparr>like_user = uid\<rparr> # likes p\<rparr>"
  from assms(3) have none: "filter (\<lambda>l. like_user l = ident u) (likes p) = []"
    by (rule filter_not_in_image)
  from findById_save [OF assms(1), of ?p'] obtain db' where
    s: "save_post db ?p' = Inr db'" and f: "findById e db' (param_id req) = Inr (Some ?p')"
    by auto
  from assms(1,2,4) none s have "like_post e db req = ((200, LikesJ (likes ?p')), db')"
    by (simp add: like_post_def unshift_def Let_def)
  with s f show ?thesis by simp
qed

lemma like_post_uncastable:
  assumes "findById e db (param_id req) = Inr (Some p)" and "req_user req = Some u"
    and "ident u \<notin> like_user ` set (likes p)" and "cast_id e (ident u) = None"
  shows "like_post e db req = ((500, Text ''Server Error''), db)"
proof -
  from assms(3) have "filter (\<lambda>l. like_user l = ident u) (likes p) = []"
    by (rule filter_not_in_image)
  with assms(1,2,4) show ?thesis
    by (simp add: like_post_def server_error_def)
qed

text \<open>
  In the example, a like under the token whose id cannot be cast is answered 500 and
  stores nothing; under the token that carries Bob's id in upper case the like is stored
  in the driver's spelling, which the test of the next request does not recognise.
\<close>

lemma like_post_spelling_demo:
  "serve demo_env LikePost demo_store (demo_request ''tok-eve'' ''p1'' [] [])
     = ((500, Text ''Server Error''), demo_store)
   \<and> serve demo_env LikePost demo_store (demo_request ''tok-BOB'' ''p1'' [] [])
     = ((200, LikesJ [\<lparr>like_user = ''u2''\<rparr>, \<lparr>like_user = ''u1''\<rparr>]),
        demo_store\<lparr>posts :=
          [demo_post\<lparr>likes := [\<lparr>like_user = ''u2''\<rparr>, \<lparr>like_user = ''u1''\<rparr>]\<rparr>, demo_post2]\<rparr>)
   \<and> serve demo_env LikePost
        (demo_store\<lparr>posts :=
          [demo_post\<lparr>likes := [\<lparr>like_user = ''u2''\<rparr>, \<lparr>like_user = ''u1''\<rparr>]\<rparr>, demo_post2]\<rparr>)
        (demo_request ''tok-BOB'' ''p1'' [] [])
     = ((200, LikesJ [\<lparr>like_user = ''u2''\<rparr>, \<lparr>like_user = ''u2''\<rparr>, \<lparr>like_user = ''u1''\<rparr>]),
        demo_store\<lparr>posts :=
          [demo_post\<lparr>likes := [\<lparr>like_user = ''u2''\<rparr>, \<lparr>like_user = ''u2''\<rparr>,
                                \<lparr>like_user = ''u1''\<rparr>]\<rparr>, demo_post2]\<rparr>)"
  by (simp add: serve_def auth_def like_post_def findById_def save_post_def
        server_error_def unshift_def Let_def
        demo_env_def demo_cast_def castable_def demo_store_def demo_post_def demo_post2_def
        demo_request_def)

text \<open>
  C3. Let the request be authenticated as \<open>u\<close>, \<open>u\<close>'s id being a document identifier in
  the driver's spelling, let the store return the post \<open>p\<close> for the request's id, and let
  no post of the store have two likes of one user. After the like request the stored post
  has exactly one like of \<open>u\<close> (when \<open>u\<close> had not liked \<open>p\<close>, the answer is 200 with \<open>u\<close>'s
  like put in front of \<open>p\<close>'s likes); the same request again is answered 400 "post already
  liked" and leaves the store as it is; and no request on any route, under an id in the
  driver's spelling, brings a second like of one user into a post.
\<close>

theorem like_twice:
  assumes "authenticated e req u" and "findById e db (param_id req) = Inr (Some p)"
    and "likes_unique db" and "cast_id e (ident u) = Some (ident u)"
  shows "\<exists>r1 db1 p1. serve e LikePost db req = (r1, db1)
      \<and> (ident u \<notin> like_user ` set (likes p) \<longrightarrow>
            r1 = (200, LikesJ (\<lparr>like_user = ident u\<rparr> # likes p))
            \<and> likes p1 = \<lparr>like_user = ident u\<rparr> # likes p)
      \<and> findById e db1 (param_id req) = Inr (Some p1)
      \<and> length (filter (\<lambda>l. like_user l = ident u) (likes p1)) = 1
      \<and> serve e LikePost db1 req = ((400, Msg ''post already liked''), db1)
      \<and> likes_unique db1
      \<and> (\<forall>r' req'.
            (\<forall>u' c. authenticated e req' u' \<and> cast_id e (ident u') = Some c \<longrightarrow> c = ident u') \<longrightarrow>
            likes_unique (snd (serve e r' db1 req')))"
proof -
  let ?req = "req\<lparr>req_user := Some u\<rparr>"
  have srv: "serve e LikePost d req = like_post e d ?req" for d
    using assms(1) by (simp add: serve_authenticated)
  have f: "findById e db (param_id ?req) = Inr (Some p)" and u: "req_user ?req = Some u"
    using assms(2) by simp_all
  from assms(2,3) findById_Some [of e db "param_id req" p]
  have d: "distinct (map like_user (likes p))"
    by (simp add: likes_unique_def)
  have inv: "\<forall>r' req'.
            (\<forall>u' c. authenticated e req' u' \<and> cast_id e (ident u') = Some c \<longrightarrow> c = ident u') \<longrightarrow>
            likes_unique (snd (serve e r' d req'))" if "likes_unique d" for d
  proof (intro allI impI)
    fix r' req'
    assume h: "\<forall>u' c. authenticated e req' u' \<and> cast_id e (ident u') = Some c \<longrightarrow> c = ident u'"
    then have "c = ident u'" if "authenticated e req' u'" "cast_id e (ident u') = Some c" for u' c
      using that by blast
    from likes_unique_serve [OF \<open>likes_unique d\<close> this]
    show "likes_unique (snd (serve e r' d req'))" .
  qed
  show ?thesis
  proof (cases "ident u \<in> like_user ` set (likes p)")
    case True
    from like_post_already [OF f u True]
    have 1: "serve e LikePost db req = ((400, Msg ''post already liked''), db)"
      by (simp add: srv)
    from count_distinct [OF d True]
    have 2: "length (filter (\<lambda>l. like_user l = ident u) (likes p)) = 1" .
    from 1 2 True assms(2,3) inv [OF assms(3)] show ?thesis
      by auto
  next
    case False
    let ?p' = "p\<lparr>likes := \<lparr>like_user = ident u\<rparr> # likes p\<rparr>"
    from like_post_fresh [OF f u False assms(4)] obtain db' where
      1: "like_post e db ?req = ((200, LikesJ (\<lparr>like_user = ident u\<rparr> # likes p)), db')" and
      s: "save_post db ?p' = Inr db'" and
      f': "findById e db' (param_id ?req) = Inr (Some ?p')"
      by blast
    from False have "filter (\<lambda>l. like_user l = ident u) (likes p) = []"
      by (rule filter_not_in_image)
    then have 2: "length (filter (\<lambda>l. like_user l = ident u) (likes ?p')) = 1"
      by simp
    have "ident u \<in> like_user ` set (likes ?p')" by simp
    from like_post_already [OF f' u this]
    have 3: "serve e LikePost db' req = ((400, Msg ''post already liked''), db')"
      by (simp add: srv)
    from d False have "distinct (map like_user (likes ?p'))" by auto
    from likes_unique_save [OF assms(3) this s] have 4: "likes_unique db'" .
    from 1 2 3 4 f' inv [OF 4] show ?thesis
      by (auto simp: srv)
  qed
qed

theorem like_twice_witness:
  "authenticated demo_env (demo_request ''tok-bob'' ''p1'' [] []) bob
   \<and> findById demo_env demo_store (param_id (demo_request ''tok-bob'' ''p1'' [] []))
       = Inr (Some demo_post)
   \<and> likes_unique demo_store
   \<and> cast_id demo_env (ident bob) = Some (ident bob)
   \<and> (\<exists>r1 db1 p1.
         serve demo_env LikePost demo_store (demo_request ''tok-bob'' ''p1'' [] []) = (r1, db1)
       \<and> r1 = (200, LikesJ [\<lparr>like_user = ''u2''\<rparr>, \<lparr>like_user = ''u1''\<rparr>])
       \<and> findById demo_env db1 (param_id (demo_request ''tok-bob'' ''p1'' [] [])) = Inr (Some p1)
       \<and> length (filter (\<lambda>l. like_user l = ident bob) (likes p1)) = 1
       \<and> serve demo_env LikePost db1 (demo_request ''tok-bob'' ''p1'' [] [])
           = ((400, Msg ''post already liked''), db1)
       \<and> likes_unique db1)"
proof -
  let ?r = "demo_request ''tok-bob'' ''p1'' [] []"
  have a: "authenticated demo_env ?r bob"
    by (simp add: authenticated_def auth_demo_bob)
  have f: "findById demo_env demo_store (param_id ?r) = Inr (Some demo_post)"
    by (simp add: demo_request_def findById_demo_post)
  have u: "likes_unique demo_store"
    by (simp add: likes_unique_def demo_store_def demo_post_def demo_post2_def)
  have c: "cast_id demo_env (ident bob) = Some (ident bob)"
    by (simp add: demo_env_def demo_cast_def bob_def)
  have n: "ident bob \<notin> like_user ` set (likes demo_post)"
    by (simp add: bob_def demo_post_def)
  have l: "\<lparr>like_user = ident bob\<rparr> # likes demo_post
             = [\<lparr>like_user = ''u2''\<rparr>, \<lparr>like_user = ''u1''\<rparr>]"
    by (simp add: bob_def demo_post_def)
  from like_twice [OF a f u c] n l have
    "\<exists>r1 db1 p1.
         serve demo_env LikePost demo_store ?r = (r1, db1)
       \<and> r1 = (200, LikesJ [\<lparr>like_user = ''u2''\<rparr>, \<lparr>like_user = ''u1''\<rparr>])
       \<and> findById demo_env db1 (param_id ?r) = Inr (Some p1)
       \<and> length (filter (\<lambda>l. like_user l = ident bob) (likes p1)) = 1
       \<and> serve demo_env LikePost db1 ?r = ((400, Msg ''post already liked''), db1)
       \<and> likes_unique db1"
    by (metis (no_types, lifting))
  with a f u c show ?thesis by blast
qed

section \<open>Create, then get\<close>

lemma find_append_new: "find P xs = None \<Longrightarrow> P x \<Longrightarrow> find P (xs @ [x]) = Some x"
  by (induction xs) (auto split: if_splits)

lemma create_post_200:
  assumes "create_post e oid now db req = ((200, PostJ p), db')"
  shows "\<exists>u a. req_user req = Some u \<and> body_text req \<noteq> []
           \<and> findUserById e db (ident u) = Inr (Some a)
           \<and> p = new_Post oid now (body_text req) (account_name a) (account_avatar a) (ident u)
           \<and> insert_post db p = Inr db'"
  using assms
  by (auto simp: create_post_def server_error_def Let_def
           split: option.splits sum.splits if_splits)

lemma findById_insert:
  assumes "insert_post db p = Inr db'" and "castable e (post_id p)"
  shows "findById e db' (post_id p) = Inr (Some p)"
proof -
  from assms(1) have r: "reachable db"
    and n: "find (\<lambda>q. post_id q = post_id p) (posts db) = None"
    and db': "db' = db\<lparr>posts := posts db @ [p]\<rparr>"
    by (auto simp: insert_post_def split: if_splits)
  from find_append_new [OF n, of p] r assms(2) show ?thesis
    by (simp add: findById_def db')
qed

lemma create_post_succeeds:
  assumes "authenticated e req u" and "body_text req \<noteq> []"
    and "findUserById e db (ident u) = Inr (Some a)"
    and "find (\<lambda>q. post_id q = oid) (posts db) = None"
  shows "serve e (CreatePost oid now) db req =
           ((200, PostJ (new_Post oid now (body_text req) (account_name a) (account_avatar a)
                          (ident u))),
            db\<lparr>posts := posts db @ [new_Post oid now (body_text req) (account_name a)
                                      (account_avatar a) (ident u)]\<rparr>)"
proof -
  from assms(3) have "reachable db"
    by (simp add: findUserById_def split: if_splits)
  with assms show ?thesis
    by (simp add: serve_authenticated create_post_def insert_post_def new_Post_def Let_def)
qed

text \<open>
  C9. When create-post, for a request authenticated as \<open>u\<close>, answers 200 with the post \<open>p\<close>
  under an id the driver can cast back, then \<open>p\<close> carries the request's text, \<open>u\<close>'s id and
  the name and avatar of \<open>u\<close>'s user document, and get-post for \<open>p\<close>'s id on the resulting
  store answers 200 with \<open>p\<close> itself.
\<close>

theorem create_then_get:
  assumes "authenticated e req u"
    and "serve e (CreatePost oid now) db req = ((200, PostJ p), db')"
    and "castable e oid"
  shows "post_id p = oid \<and> post_text p = body_text req \<and> post_user p = ident u
       \<and> (\<exists>a. findUserById e db (ident u) = Inr (Some a)
               \<and> post_name p = account_name a \<and> post_avatar p = account_avatar a)
       \<and> serve e GetPost db' (req\<lparr>param_id := post_id p\<rparr>) = ((200, PostJ p), db')"
proof -
  from assms(1,2)
  have "create_post e oid now db (req\<lparr>req_user := Some u\<rparr>) = ((200, PostJ p), db')"
    by (simp add: serve_authenticated)
  from create_post_200 [OF this] obtain a where
    a: "findUserById e db (ident u) = Inr (Some a)" and
    p: "p = new_Post oid now (body_text req) (account_name a) (account_avatar a) (ident u)" and
    i: "insert_post db p = Inr db'"
    by auto
  from p have id: "post_id p = oid" by (simp add: new_Post_def)
  from findById_insert [OF i, of e] assms(3) id
  have "findById e db' (post_id p) = Inr (Some p)" by simp
  then have "serve e GetPost db' (req\<lparr>param_id := post_id p\<rparr>) = ((200, PostJ p), db')"
    using authenticated_param_id [OF assms(1), of "post_id p"]
    by (simp add: serve_authenticated get_post_def)
  with a p show ?thesis by (auto simp: new_Post_def)
qed

lemma create_demo:
  "serve demo_env (CreatePost ''p3'' 50) demo_store (demo_request ''tok-ann'' [] [] ''first post'')
     = ((200, PostJ (new_Post ''p3'' 50 ''first post'' ''Ann'' ''a.png'' ''u1'')),
        demo_store\<lparr>posts := [demo_post, demo_post2,
                                new_Post ''p3'' 50 ''first post'' ''Ann'' ''a.png'' ''u1'']\<rparr>)"
  unfolding serve_demo_ann handler.simps
  by (simp add: create_post_def findUserById_def insert_post_def new_Post_def Let_def
        demo_env_def demo_cast_def castable_def demo_store_def demo_post_def demo_post2_def demo_request_def ann_def)

theorem create_then_get_witness:
  "serve demo_env (CreatePost ''p3'' 50) demo_store (demo_request ''tok-ann'' [] [] ''first post'')
     = ((200, PostJ (new_Post ''p3'' 50 ''first post'' ''Ann'' ''a.png'' ''u1'')),
        demo_store\<lparr>posts := [demo_post, demo_post2,
                                new_Post ''p3'' 50 ''first post'' ''Ann'' ''a.png'' ''u1'']\<rparr>)
   \<and> serve demo_env GetPost
        (demo_store\<lparr>posts := [demo_post, demo_post2,
                                new_Post ''p3'' 50 ''first post'' ''Ann'' ''a.png'' ''u1'']\<rparr>)
        ((demo_request ''tok-ann'' [] [] ''first post'')\<lparr>param_id := ''p3''\<rparr>)
     = ((200, PostJ (new_Post ''p3'' 50 ''first post'' ''Ann'' ''a.png'' ''u1'')),
        demo_store\<lparr>posts := [demo_post, demo_post2,
                                new_Post ''p3'' 50 ''first post'' ''Ann'' ''a.png'' ''u1'']\<rparr>)"
proof -
  let ?r = "demo_request ''tok-ann'' [] [] ''first post''"
  have a: "authenticated demo_env ?r ann"
    by (simp add: authenticated_def auth_demo_ann)
  have c: "castable demo_env ''p3''"
    by (simp add: demo_env_def demo_cast_def castable_def)
  have i: "post_id (new_Post ''p3'' 50 ''first post'' ''Ann'' ''a.png'' ''u1'') = ''p3''"
    by (simp add: new_Post_def)
  from create_then_get [OF a create_demo c] i create_demo show ?thesis
    by simp
qed

section \<open>Ordering\<close>

lemma newest_first_sort: "newest_first post_date (sort_key (\<lambda>p. - post_date p) ps)"
proof -
  have "sorted (map (\<lambda>p. - post_date p) (sort_key (\<lambda>p. - post_date p) ps))"
    by (rule sorted_sort_key)
  then show ?thesis
    by (simp add: newest_first_def sorted_map)
qed

lemma findUserById_Some:
  "findUserById e db i = Inr (Some a) \<Longrightarrow> account_id a = i"
  by (auto simp: findUserById_def find_Some_iff split: if_splits)

lemma add_comment_ok:
  assumes "findById e db (param_id req) = Inr (Some p)" and "req_user req = Some u"
    and "findUserById e db (ident u) = Inr (Some a)" and "body_text req \<noteq> []"
    and "c = new_comment oid now (body_text req) (account_name a) (account_avatar a) (ident u)"
  shows "\<exists>db'. add_comment e oid now db req = ((200, CommentsJ (c # comments p)), db')
           \<and> findById e db' (param_id req) = Inr (Some (p\<lparr>comments := c # comments p\<rparr>))"
proof -
  let ?p' = "p\<lparr>comments := c # comments p\<rparr>"
  from findById_save [OF assms(1), of ?p'] obtain db' where
    s: "save_post db ?p' = Inr db'" and f: "findById e db' (param_id req) = Inr (Some ?p')"
    by auto
  from assms s have "add_comment e oid now db req = ((200, CommentsJ (comments ?p')), db')"
    by (simp add: add_comment_def unshift_def Let_def)
  with f show ?thesis by simp
qed

text \<open>
  C8. For an authenticated request on a reachable store: list-posts answers 200 with all
  the posts of the store, each once, no post before a newer one; a like that is accepted
  (the requester's id can be cast and is not among the post's likes) puts the new like,
  carrying the id as the driver spells it, in front of the post's likes, in the answer and
  in the store; a comment that is accepted puts the new comment in front of the post's
  comments, in the answer and in the store, under the id, name and avatar of the
  requester's user document, so that comments that were newest-first stay newest-first as
  long as the clock does not run backwards.
\<close>

theorem newest_first_order:
  assumes "authenticated e req u" and "reachable db"
  shows "(\<exists>ps. serve e ListPosts db req = ((200, PostsJ ps), db)
            \<and> newest_first post_date ps \<and> mset ps = mset (posts db))
       \<and> (\<forall>p uid. findById e db (param_id req) = Inr (Some p)
              \<and> ident u \<notin> like_user ` set (likes p) \<and> cast_id e (ident u) = Some uid \<longrightarrow>
            (\<exists>db'. serve e LikePost db req
                      = ((200, LikesJ (\<lparr>like_user = uid\<rparr> # likes p)), db')
                  \<and> findById e db' (param_id req)
                      = Inr (Some (p\<lparr>likes := \<lparr>like_user = uid\<rparr> # likes p\<rparr>))))
       \<and> (\<forall>p a c. findById e db (param_id req) = Inr (Some p)
              \<and> findUserById e db (ident u) = Inr (Some a) \<and> body_text req \<noteq> []
              \<and> c = new_comment oid now (body_text req) (account_name a) (account_avatar a)
                      (account_id a) \<longrightarrow>
            (\<exists>db'. serve e (AddComment oid now) db req = ((200, CommentsJ (c # comments p)), db')
                  \<and> findById e db' (param_id req) = Inr (Some (p\<lparr>comments := c # comments p\<rparr>)))
            \<and> (newest_first comment_date (comments p)
                 \<and> (\<forall>c' \<in> set (comments p). comment_date c' \<le> now) \<longrightarrow>
               newest_first comment_date (c # comments p)))"
proof -
  let ?req = "req\<lparr>req_user := Some u\<rparr>"
  have 1: "\<exists>ps. serve e ListPosts db req = ((200, PostsJ ps), db)
            \<and> newest_first post_date ps \<and> mset ps = mset (posts db)"
    using assms newest_first_sort [of "posts db"]
    by (simp add: serve_authenticated get_posts_def find_sorted_def)
  have 2: "\<exists>db'. serve e LikePost db req
                      = ((200, LikesJ (\<lparr>like_user = uid\<rparr> # likes p)), db')
                  \<and> findById e db' (param_id req)
                      = Inr (Some (p\<lparr>likes := \<lparr>like_user = uid\<rparr> # likes p\<rparr>))"
    if "findById e db (param_id req) = Inr (Some p)" "ident u \<notin> like_user ` set (likes p)"
       "cast_id e (ident u) = Some uid" for p uid
    using like_post_fresh [of e db ?req p u uid] that assms(1)
    by (auto simp: serve_authenticated)
  have 3: "\<exists>db'. serve e (AddComment oid now) db req = ((200, CommentsJ (c # comments p)), db')
                  \<and> findById e db' (param_id req) = Inr (Some (p\<lparr>comments := c # comments p\<rparr>))"
    if "findById e db (param_id req) = Inr (Some p)"
       "findUserById e db (ident u) = Inr (Some a)" "body_text req \<noteq> []"
       "c = new_comment oid now (body_text req) (account_name a) (account_avatar a)
              (account_id a)"
    for p a c
    using add_comment_ok [of e db ?req p u a c oid now] that assms(1)
      findUserById_Some [of e db "ident u" a]
    by (auto simp: serve_authenticated)
  have 4: "newest_first comment_date (c # comments p)"
    if "newest_first comment_date (comments p)" "\<forall>c' \<in> set (comments p). comment_date c' \<le> now"
       "c = new_comment oid now t nm av usr" for p c t nm av usr
    using that by (simp add: newest_first_def new_comment_def)
  from 1 2 3 4 show ?thesis by blast
qed


theorem newest_first_order_witness:
  "authenticated demo_env (demo_request ''tok-bob'' ''p1'' [] ''nice'') bob
   \<and> reachable demo_store
   \<and> (\<exists>ps. serve demo_env ListPosts demo_store (demo_request ''tok-bob'' ''p1'' [] ''nice'')
              = ((200, PostsJ ps), demo_store)
          \<and> newest_first post_date ps \<and> mset ps = mset (posts demo_store))
   \<and> (\<exists>db'. serve demo_env LikePost demo_store (demo_request ''tok-bob'' ''p1'' [] ''nice'')
              = ((200, LikesJ (\<lparr>like_user = ident bob\<rparr> # likes demo_post)), db'))
   \<and> (\<exists>db'. serve demo_env (AddComment ''c3'' 40) demo_store
                (demo_request ''tok-bob'' ''p1'' [] ''nice'')
              = ((200, CommentsJ (new_comment ''c3'' 40 ''nice'' ''Bob'' ''b.png'' ''u2''
                                    # comments demo_post)), db'))
   \<and> newest_first comment_date
        (new_comment ''c3'' 40 ''nice'' ''Bob'' ''b.png'' ''u2'' # comments demo_post)"
proof -
  let ?r = "demo_request ''tok-bob'' ''p1'' [] ''nice''"
  let ?a = "\<lparr>account_id = ''u2'', account_name = ''Bob'', account_avatar = ''b.png''\<rparr>"
  let ?c = "new_comment ''c3'' 40 ''nice'' ''Bob'' ''b.png'' ''u2''"
  have a: "authenticated demo_env ?r bob"
    by (simp add: authenticated_def auth_demo_bob)
  have r: "reachable demo_store"
    by (simp add: demo_store_def)
  have f: "findById demo_env demo_store (param_id ?r) = Inr (Some demo_post)"
    by (simp add: demo_request_def findById_demo_post)
  have n: "ident bob \<notin> like_user ` set (likes demo_post)"
    by (simp add: bob_def demo_post_def)
  have cb: "cast_id demo_env (ident bob) = Some (ident bob)"
    by (simp add: demo_env_def demo_cast_def bob_def)
  have fu: "findUserById demo_env demo_store (ident bob) = Inr (Some ?a)"
    by (simp add: findUserById_def demo_env_def demo_cast_def castable_def demo_store_def bob_def)
  have t: "body_text ?r \<noteq> []"
    by (simp add: demo_request_def)
  have c: "?c = new_comment ''c3'' 40 (body_text ?r) (account_name ?a) (account_avatar ?a)
                  (account_id ?a)"
    by (simp add: demo_request_def)
  have s: "newest_first comment_date (comments demo_post)"
    by (simp add: newest_first_def demo_post_def demo_comment_def)
  have o: "\<forall>c' \<in> set (comments demo_post). comment_date c' \<le> 40"
    by (simp add: demo_post_def demo_comment_def)
  note th = newest_first_order [OF a r, of "''c3''" 40]
  from th have 1: "\<exists>ps. serve demo_env ListPosts demo_store ?r = ((200, PostsJ ps), demo_store)
          \<and> newest_first post_date ps \<and> mset ps = mset (posts demo_store)"
    by blast
  from th f n cb have 2: "\<exists>db'. serve demo_env LikePost demo_store ?r
              = ((200, LikesJ (\<lparr>like_user = ident bob\<rparr> # likes demo_post)), db')"
    by blast
  from th f fu t c have 3: "\<exists>db'. serve demo_env (AddComment ''c3'' 40) demo_store ?r
              = ((200, CommentsJ (?c # comments demo_post)), db')"
    by blast
  from th f fu t c s o have 4: "newest_first comment_date (?c # comments demo_post)"
    by blast
  from a r 1 2 3 4 show ?thesis by blast
qed

section \<open>Removal by position\<close>

lemma indexOf_absent: "x \<notin> set ys \<Longrightarrow> indexOf ys x = - 1"
  by (induction ys) (auto simp: Let_def)

lemma indexOf_present:
  "x \<in> set ys \<Longrightarrow> indexOf ys x = int (length (takeWhile (\<lambda>y. y \<noteq> x) ys))"
  by (induction ys) (auto simp: Let_def indexOf_absent)

lemma splice_last: "splice xs (- 1) 1 = butlast xs"
proof (cases xs rule: rev_cases)
  case Nil
  then show ?thesis by (simp add: splice_def)
next
  case (snoc ys y)
  then show ?thesis by (simp add: splice_def Let_def)
qed

lemma splice_first_match:
  assumes "x \<in> f ` set xs"
  shows "splice xs (indexOf (map f xs) x) 1 =
           takeWhile (\<lambda>l. f l \<noteq> x) xs @ drop 1 (dropWhile (\<lambda>l. f l \<noteq> x) xs)"
proof -
  let ?k = "length (takeWhile (\<lambda>l. f l \<noteq> x) xs)"
  have k: "length (takeWhile (\<lambda>y. y \<noteq> x) (map f xs)) = ?k"
    by (simp add: takeWhile_map comp_def)
  from assms have i: "indexOf (map f xs) x = int ?k"
    using indexOf_present [of x "map f xs"] k by simp
  have le: "?k \<le> length xs" by (rule length_takeWhile_le)
  have t: "take ?k xs = takeWhile (\<lambda>l. f l \<noteq> x) xs"
    by (rule takeWhile_eq_take [symmetric])
  have d: "drop (?k + 1) xs = drop 1 (dropWhile (\<lambda>l. f l \<noteq> x) xs)"
    by (simp add: dropWhile_eq_drop add.commute)
  have "splice xs (indexOf (map f xs) x) 1 = splice xs (int ?k) 1"
    by (simp only: i)
  also have "\<dots> = take ?k xs @ drop (?k + 1) xs"
    using le by (simp add: splice_def Let_def)
  also have "\<dots> = takeWhile (\<lambda>l. f l \<noteq> x) xs @ drop 1 (dropWhile (\<lambda>l. f l \<noteq> x) xs)"
    by (simp only: t d)
  finally show ?thesis .
qed

lemma unlike_post_result:
  assumes "findById e db (param_id req) = Inr (Some p)" and "req_user req = Some u"
  shows "\<exists>db'. unlike_post e db req =
            ((200, LikesJ (if ident u \<in> like_user ` set (likes p)
                           then takeWhile (\<lambda>l. like_user l \<noteq> ident u) (likes p)
                                @ drop 1 (dropWhile (\<lambda>l. like_user l \<noteq> ident u) (likes p))
                           else butlast (likes p))), db')"
proof -
  let ?ls = "splice (likes p) (indexOf (map like_user (likes p)) (ident u)) 1"
  from findById_save [OF assms(1), of "p\<lparr>likes := ?ls\<rparr>"] obtain db' where
    "save_post db (p\<lparr>likes := ?ls\<rparr>) = Inr db'" by auto
  with assms have "unlike_post e db req = ((200, LikesJ ?ls), db')"
    by (simp add: unlike_post_def truthy_def assign_length_def Let_def)
  moreover have "?ls = takeWhile (\<lambda>l. like_user l \<noteq> ident u) (likes p)
                                @ drop 1 (dropWhile (\<lambda>l. like_user l \<noteq> ident u) (likes p))"
    if "ident u \<in> like_user ` set (likes p)"
    using that by (rule splice_first_match)
  moreover have "?ls = butlast (likes p)" if "ident u \<notin> like_user ` set (likes p)"
    using that indexOf_absent [of "ident u" "map like_user (likes p)"]
      splice_last [of "likes p"]
    by simp
  ultimately show ?thesis by auto
qed

text \<open>
  C4. Bob has not liked the post, whose only like is Ann's. His unlike request is not
  rejected: it answers 200 with an empty likes array, and Ann's like is gone from the
  stored post.
\<close>

theorem unlike_not_liked_removes_other:
  "serve demo_env UnlikePost demo_store (demo_request ''tok-bob'' ''p1'' [] [])
     = ((200, LikesJ []), demo_store\<lparr>posts := [demo_post\<lparr>likes := []\<rparr>, demo_post2]\<rparr>)"
  unfolding serve_demo_bob handler.simps
  by (simp add: unlike_post_def findById_def save_post_def
        demo_env_def demo_cast_def castable_def demo_store_def demo_post_def demo_post2_def demo_request_def bob_def
        truthy_def assign_length_def splice_def)

lemma delete_comment_result:
  assumes "findById e db (param_id req) = Inr (Some p)" and "req_user req = Some u"
    and "find (\<lambda>c. comment_id c = param_comment_id req) (comments p) = Some c"
    and "comment_user c = ident u"
  shows "delete_comment e db req =
           ((200, CommentsJ (takeWhile (\<lambda>c. comment_user c \<noteq> ident u) (comments p)
               @ drop 1 (dropWhile (\<lambda>c. comment_user c \<noteq> ident u) (comments p)))), db)"
proof -
  from assms(3) have "c \<in> set (comments p)"
    by (auto simp: find_Some_iff)
  with assms(4) have "ident u \<in> comment_user ` set (comments p)"
    by force
  from splice_first_match [OF this] assms show ?thesis
    by (simp add: delete_comment_def Let_def)
qed

text \<open>
  C5. Bob wrote both comments of the post and asks to delete the second, \<open>c2\<close>. The handler
  answers 200 with the comments that are left: \<open>c2\<close> is still there and \<open>c1\<close>, Bob's first
  comment by position, is gone.
\<close>

theorem delete_comment_removes_other:
  "serve demo_env DeleteComment demo_store (demo_request ''tok-bob'' ''p1'' ''c2'' [])
     = ((200, CommentsJ [demo_comment ''c2'' ''u2'' 20]), demo_store)"
  unfolding serve_demo_bob handler.simps
  by (simp add: delete_comment_def findById_def
        demo_env_def demo_cast_def castable_def demo_store_def demo_post_def demo_request_def bob_def
        demo_comment_def splice_def)

section \<open>Malformed and unknown identifiers\<close>

lemma post_not_found:
  assumes "authenticated e req u"
    and "findById e db (param_id req) = Inl CastError
         \<or> findById e db (param_id req) = Inr None"
  shows "serve e GetPost db req = ((404, Msg ''post not found''), db)"
    and "serve e DeletePost db req = ((404, Msg ''post not found''), db)"
    and "serve e LikePost db req = ((500, Text ''Server Error''), db)"
    and "serve e UnlikePost db req = ((500, Text ''Server Error''), db)"
    and "serve e DeleteComment db req = ((500, Text ''Server Error''), db)"
    and "body_text req \<noteq> [] \<Longrightarrow>
         serve e (AddComment oid now) db req = ((500, Text ''Server Error''), db)"
proof -
  note f = assms(2)
  let ?req = "req\<lparr>req_user := Some u\<rparr>"
  from f have f': "findById e db (param_id ?req) = Inl CastError
                       \<or> findById e db (param_id ?req) = Inr None"
    by simp
  show "serve e GetPost db req = ((404, Msg ''post not found''), db)"
    using f' assms(1) by (auto simp: serve_authenticated get_post_def catch_not_found_def)
  show "serve e DeletePost db req = ((404, Msg ''post not found''), db)"
    using f' assms(1) by (auto simp: serve_authenticated delete_post_def catch_not_found_def)
  show "serve e LikePost db req = ((500, Text ''Server Error''), db)"
    using f' assms(1) by (auto simp: serve_authenticated like_post_def server_error_def)
  show "serve e UnlikePost db req = ((500, Text ''Server Error''), db)"
    using f' assms(1) by (auto simp: serve_authenticated unlike_post_def server_error_def)
  show "serve e DeleteComment db req = ((500, Text ''Server Error''), db)"
    using f' assms(1) by (auto simp: serve_authenticated delete_comment_def server_error_def)
  show "serve e (AddComment oid now) db req = ((500, Text ''Server Error''), db)"
    if "body_text req \<noteq> []"
    using f' assms(1) that
    by (auto simp: serve_authenticated add_comment_def server_error_def
             split: sum.splits option.splits)
qed

text \<open>
  C7. With a valid token, like, unlike, add-comment and delete-comment answer 500 for a
  post id the driver cannot cast and for a well-formed id that no post has; get-post and
  delete-post answer 404 for the same two ids.
\<close>

theorem malformed_id_server_error:
  "serve demo_env LikePost demo_store (demo_request ''tok-ann'' ''not-an-id'' [] [])
     = ((500, Text ''Server Error''), demo_store)
   \<and> serve demo_env LikePost demo_store (demo_request ''tok-ann'' ''p9'' [] [])
     = ((500, Text ''Server Error''), demo_store)
   \<and> serve demo_env UnlikePost demo_store (demo_request ''tok-ann'' ''not-an-id'' [] [])
     = ((500, Text ''Server Error''), demo_store)
   \<and> serve demo_env UnlikePost demo_store (demo_request ''tok-ann'' ''p9'' [] [])
     = ((500, Text ''Server Error''), demo_store)
   \<and> serve demo_env (AddComment ''c9'' 60) demo_store
        (demo_request ''tok-ann'' ''not-an-id'' [] ''hi'')
     = ((500, Text ''Server Error''), demo_store)
   \<and> serve demo_env (AddComment ''c9'' 60) demo_store (demo_request ''tok-ann'' ''p9'' [] ''hi'')
     = ((500, Text ''Server Error''), demo_store)
   \<and> serve demo_env DeleteComment demo_store (demo_request ''tok-ann'' ''not-an-id'' ''c1'' [])
     = ((500, Text ''Server Error''), demo_store)
   \<and> serve demo_env DeleteComment demo_store (demo_request ''tok-ann'' ''p9'' ''c1'' [])
     = ((500, Text ''Server Error''), demo_store)
   \<and> serve demo_env GetPost demo_store (demo_request ''tok-ann'' ''not-an-id'' [] [])
     = ((404, Msg ''post not found''), demo_store)
   \<and> serve demo_env GetPost demo_store (demo_request ''tok-ann'' ''p9'' [] [])
     = ((404, Msg ''post not found''), demo_store)
   \<and> serve demo_env DeletePost demo_store (demo_request ''tok-ann'' ''not-an-id'' [] [])
     = ((404, Msg ''post not found''), demo_store)
   \<and> serve demo_env DeletePost demo_store (demo_request ''tok-ann'' ''p9'' [] [])
     = ((404, Msg ''post not found''), demo_store)"
  unfolding serve_demo_ann handler.simps
  by (simp add: like_post_def unlike_post_def add_comment_def delete_comment_def
        get_post_def delete_post_def findById_def findUserById_def
        server_error_def catch_not_found_def
        demo_env_def demo_cast_def castable_def demo_store_def demo_post_def demo_post2_def demo_request_def ann_def)

end
